theory Spec2Isabelle
  imports Main
begin

section \<open>Data model\<close>

text \<open>
  The records of \<^verbatim>\<open>../models\<close> as \<^verbatim>\<open>src/utils/git.ts\<close> builds and reads them.
  A JavaScript string is a list of code units; here a \<^typ>\<open>string\<close>, one \<^typ>\<open>char\<close>
  per code unit (code units 0..255). A property that an object literal leaves out
  reads as \<^verbatim>\<open>undefined\<close>: such a field is an \<^typ>\<open>'a option\<close>, \<^const>\<open>None\<close> when
  absent. \<^verbatim>\<open>null\<close> in a numeric field is \<^const>\<open>None\<close> as well.
  Numbers produced by \<^verbatim>\<open>Number\<close> from a run of decimal digits are naturals
  (exact in the source below \<open>2 ^ 53\<close>).
\<close>

datatype error = CommandError string

text \<open>An awaited promise: rejected with an error (\<^const>\<open>Inl\<close>) or fulfilled (\<^const>\<open>Inr\<close>).\<close>

type_synonym 'a promise = "error + 'a"

record IShortStatusInfo =
  status :: string
  tooManyChanges :: "bool option"

record IModifiedCount =
  files :: nat
  insertions :: nat
  deletions :: nat

record IDiffCommitCount =
  ahead :: "nat option"
  behind :: "nat option"

record IGitStatus =
  name :: string
  path :: string
  status :: string
  branch :: string
  diffCommitCount :: IDiffCommitCount
  modifiedCount :: IModifiedCount
  isDirty :: bool
  hasUnsavedChanges :: bool
  tooManyChanges :: bool
  hasUnmergedCommits :: bool
  hasUnsyncedCommits :: bool

section \<open>The collaborators imported from \<^verbatim>\<open>"."\<close>\<close>

text \<open>
  \<^verbatim>\<open>cmd\<close>, \<^verbatim>\<open>tryCmd\<close>, \<^verbatim>\<open>getDirectories\<close>, \<^verbatim>\<open>getDirectoryName\<close>, \<^verbatim>\<open>trimNewLines\<close> and
  \<^verbatim>\<open>trimWhitespace\<close> are imported by \<^verbatim>\<open>git.ts\<close> and defined elsewhere. They are
  parameters of the model, collected in one record:
  \<^item> \<open>cmd\<close> runs a command line and resolves to its output or rejects;
  \<^item> \<open>tryCmd\<close> resolves to an array of strings (\<^verbatim>\<open>const [stats] = await tryCmd(...)\<close>
    takes its first element) and does not reject;
  \<^item> \<open>getDirectories\<close> lists a directory or rejects;
  \<^item> the other three are pure functions on strings.
\<close>

record env =
  cmd :: "string \<Rightarrow> string promise"
  tryCmd :: "string \<Rightarrow> string list"
  getDirectories :: "string \<Rightarrow> string list promise"
  getDirectoryName :: "string \<Rightarrow> string"
  trimNewLines :: "string \<Rightarrow> string"
  trimWhitespace :: "string \<Rightarrow> string"

text \<open>
  Modelled from the spec: \<^verbatim>\<open>filterAsync\<close> is missing from the sources. The spec has
  all checks issued in parallel and the result keeping the order of the input,
  with only the elements whose check is true. A rejected check rejects the whole.
\<close>

fun filterAsync :: "'a list \<Rightarrow> ('a \<Rightarrow> bool promise) \<Rightarrow> 'a list promise" where
  "filterAsync [] f = Inr []"
| "filterAsync (x # xs) f =
     (case f x of
        Inl e \<Rightarrow> Inl e
      | Inr b \<Rightarrow>
          (case filterAsync xs f of
             Inl e \<Rightarrow> Inl e
           | Inr ys \<Rightarrow> Inr (if b then x # ys else ys)))"

section \<open>Regular expressions and JavaScript coercions\<close>

text \<open>The class \<^verbatim>\<open>\d\<close>: the ten decimal digits.\<close>

definition is_digit :: "char \<Rightarrow> bool" where
  "is_digit c \<longleftrightarrow> 48 \<le> (of_char c :: nat) \<and> (of_char c :: nat) \<le> 57"

text \<open>
  The class \<^verbatim>\<open>\s\<close> on code units below 256: tab, line feed, vertical tab, form
  feed, carriage return, space and the no-break space.
\<close>

definition is_space :: "char \<Rightarrow> bool" where
  "is_space c \<longleftrightarrow> (of_char c :: nat) \<in> {9, 10, 11, 12, 13, 32, 160}"

text \<open>
  \<^verbatim>\<open>Number(s)\<close> for a string of decimal digits; \<^verbatim>\<open>Number("")\<close> is 0. The value is
  the exact natural number that the digits write. The source's numbers are
  doubles: for a run of digits that writes \<open>2 ^ 53\<close> or more, the source rounds and
  this function does not. Whether the number is zero is the same in both.
\<close>

definition Number :: "string \<Rightarrow> nat" where
  "Number s = foldl (\<lambda>n c. 10 * n + (of_char c - 48)) 0 s"

text \<open>
  \<^verbatim>\<open>/(\d+)LIT/\<close> tried at the start of the string, for a literal text \<open>lit\<close>; the
  result is the capture group. \<^verbatim>\<open>\d+\<close> is greedy: after one digit it first tries
  to go on with more digits, and only when that fails it stops and tries the
  literal.
\<close>

fun match_digits_lit :: "string \<Rightarrow> string \<Rightarrow> string option" where
  "match_digits_lit lit [] = None"
| "match_digits_lit lit (c # cs) =
     (if is_digit c then
        (case match_digits_lit lit cs of
           Some g \<Rightarrow> Some (c # g)
         | None \<Rightarrow> if take (length lit) cs = lit then Some [c] else None)
      else None)"

text \<open>
  \<^verbatim>\<open>s.match(/(\d+)LIT/)?.[1]\<close>: the group of the leftmost match, \<^const>\<open>None\<close> for
  \<^verbatim>\<open>undefined\<close> when the pattern matches nowhere.
\<close>

fun match_group :: "string \<Rightarrow> string \<Rightarrow> string option" where
  "match_group lit [] = None"
| "match_group lit (c # cs) =
     (case match_digits_lit lit (c # cs) of
        Some g \<Rightarrow> Some g
      | None \<Rightarrow> match_group lit cs)"

text \<open>\<^verbatim>\<open>Number(g || 0)\<close> for a group \<open>g\<close> that is a string or \<^verbatim>\<open>undefined\<close>.\<close>

definition Number_or_0 :: "string option \<Rightarrow> nat" where
  "Number_or_0 g = (case g of None \<Rightarrow> 0 | Some s \<Rightarrow> if s = [] then 0 else Number s)"

text \<open>
  \<^verbatim>\<open>resp.match(/(\d*)\s*(\d*)/)\<close>: every part may be empty, so the pattern matches
  at index 0 of any string, \<^verbatim>\<open>match\<close> never returns \<^verbatim>\<open>null\<close> and the fallback
  \<^verbatim>\<open>matches || []\<close> is never taken. Each star is greedy and what follows it
  cannot fail, so each takes the longest run. The result is the two groups.
\<close>

definition match_ahead_behind :: "string \<Rightarrow> string \<times> string" where
  "match_ahead_behind resp =
     (let g1 = takeWhile is_digit resp;
          rest = dropWhile is_space (dropWhile is_digit resp);
          g2 = takeWhile is_digit rest
      in (g1, g2))"

text \<open>\<^verbatim>\<open>Boolean(n)\<close> for a number, and for a number or \<^verbatim>\<open>null\<close>.\<close>

definition Boolean_num :: "nat \<Rightarrow> bool" where
  "Boolean_num n \<longleftrightarrow> n \<noteq> 0"

definition Boolean_opt :: "nat option \<Rightarrow> bool" where
  "Boolean_opt v = (case v of None \<Rightarrow> False | Some n \<Rightarrow> Boolean_num n)"

text \<open>\<^verbatim>\<open>a || b\<close> on numbers or \<^verbatim>\<open>null\<close>: \<open>a\<close> when it is truthy, \<open>b\<close> otherwise.\<close>

definition or_num :: "nat option \<Rightarrow> nat option \<Rightarrow> nat option" where
  "or_num a b = (if Boolean_opt a then a else b)"

text \<open>\<^verbatim>\<open>a || b\<close> for a flag \<open>a\<close> that may be \<^verbatim>\<open>undefined\<close> and a boolean \<open>b\<close>.\<close>

definition or_flag :: "bool option \<Rightarrow> bool \<Rightarrow> bool" where
  "or_flag a b = (case a of Some True \<Rightarrow> True | _ \<Rightarrow> b)"

section \<open>The field extractors of \<^verbatim>\<open>src/utils/git.ts\<close>\<close>

definition getGitShortStatus :: "env \<Rightarrow> string \<Rightarrow> IShortStatusInfo promise" where
  "getGitShortStatus e p =
     (case cmd e (''git -C '' @ p @ '' status -s'') of
        Inr resp \<Rightarrow>
          Inr \<lparr>IShortStatusInfo.status = trimNewLines e resp,
               IShortStatusInfo.tooManyChanges = None\<rparr>
      | Inl err \<Rightarrow>
          Inr \<lparr>IShortStatusInfo.status = [],
               IShortStatusInfo.tooManyChanges = Some True\<rparr>)"

definition getCurrentBranch :: "env \<Rightarrow> string \<Rightarrow> string promise" where
  "getCurrentBranch e p =
     (case cmd e (''git -C '' @ p @ '' branch --show-current'') of
        Inl err \<Rightarrow> Inl err
      | Inr resp \<Rightarrow>
          Inr (if trimWhitespace e resp = [] then ''Detached Head''
               else trimWhitespace e resp))"

definition parseModifiedCounts :: "string \<Rightarrow> IModifiedCount" where
  "parseModifiedCounts stats =
     \<lparr>files = Number_or_0 (match_group '' files'' stats),
      insertions = Number_or_0 (match_group '' insertions'' stats),
      deletions = Number_or_0 (match_group '' deletions'' stats)\<rparr>"

definition getModifiedCounts :: "env \<Rightarrow> string \<Rightarrow> IModifiedCount promise" where
  "getModifiedCounts e p =
     (case tryCmd e (''git -C '' @ p @ '' diff --shortstat'') of
        [] \<Rightarrow> Inr \<lparr>files = 0, insertions = 0, deletions = 0\<rparr>
      | stats # _ \<Rightarrow>
          if stats = [] then Inr \<lparr>files = 0, insertions = 0, deletions = 0\<rparr>
          else Inr (parseModifiedCounts stats))"

text \<open>
  The end of the rev-list command: three dots, then the at sign (code 0x40) and
  the word \<^verbatim>\<open>upstream\<close> in braces.
\<close>

definition upstream_suffix :: string where
  "upstream_suffix = ''...'' @ [CHR 0x40] @ ''{upstream}''"

definition getAheadBehindCount :: "env \<Rightarrow> string \<Rightarrow> string option \<Rightarrow> IDiffCommitCount promise" where
  "getAheadBehindCount e p br =
     (case cmd e (''git -C '' @ p @ '' rev-list --count --left-right ''
                   @ (case br of None \<Rightarrow> ''HEAD'' | Some b \<Rightarrow> if b = [] then ''HEAD'' else b)
                   @ upstream_suffix) of
        Inr resp \<Rightarrow>
          (case match_ahead_behind resp of
             (a, b) \<Rightarrow> Inr \<lparr>ahead = Some (Number a), behind = Some (Number b)\<rparr>)
      | Inl err \<Rightarrow> Inr \<lparr>ahead = None, behind = None\<rparr>)"

definition isGitDirectory :: "env \<Rightarrow> string \<Rightarrow> bool promise" where
  "isGitDirectory e p =
     (case cmd e (''git -C '' @ p @ '' rev-parse --is-inside-work-tree'') of
        Inr resp \<Rightarrow> Inr (trimWhitespace e resp = ''true'')
      | Inl err \<Rightarrow> Inr False)"

definition getGitDirectories :: "env \<Rightarrow> string \<Rightarrow> string list promise" where
  "getGitDirectories e p =
     (case isGitDirectory e p of
        Inl err \<Rightarrow> Inl err
      | Inr True \<Rightarrow> Inr [p]
      | Inr False \<Rightarrow>
          (case getDirectories e p of
             Inl err \<Rightarrow> Inl err
           | Inr dirs \<Rightarrow> filterAsync dirs (isGitDirectory e)))"

section \<open>The status aggregator\<close>

text \<open>
  \<^verbatim>\<open>Promise.all\<close> of the four extractors: fulfilled with the four values when all
  are fulfilled, rejected when one is rejected.
\<close>

definition promise_all4 ::
  "'a promise \<Rightarrow> 'b promise \<Rightarrow> 'c promise \<Rightarrow> 'd promise \<Rightarrow> ('a \<times> 'b \<times> 'c \<times> 'd) promise" where
  "promise_all4 a b c d =
     (case a of Inl err \<Rightarrow> Inl err | Inr x \<Rightarrow>
      (case b of Inl err \<Rightarrow> Inl err | Inr y \<Rightarrow>
       (case c of Inl err \<Rightarrow> Inl err | Inr z \<Rightarrow>
        (case d of Inl err \<Rightarrow> Inl err | Inr w \<Rightarrow> Inr (x, y, z, w)))))"

definition getGitStatusInfo :: "env \<Rightarrow> string \<Rightarrow> IGitStatus promise" where
  "getGitStatusInfo e p =
     (case promise_all4 (getCurrentBranch e p) (getGitShortStatus e p)
             (getAheadBehindCount e p None) (getModifiedCounts e p) of
        Inl err \<Rightarrow> Inl err
      | Inr (br, statusInfo, dcc, mc) \<Rightarrow>
          (let st = IShortStatusInfo.status statusInfo;
               tmc = IShortStatusInfo.tooManyChanges statusInfo;
               dirty = Boolean_num (files mc);
               unmerged = Boolean_opt (ahead dcc);
               unsynced = Boolean_opt (or_num (ahead dcc) (behind dcc));
               unsaved = (dirty \<or> unmerged)
           in Inr \<lparr>name = getDirectoryName e p,
                   path = p,
                   status = st,
                   branch = br,
                   diffCommitCount = dcc,
                   modifiedCount = mc,
                   isDirty = dirty,
                   hasUnsavedChanges = unsaved,
                   tooManyChanges = or_flag tmc (length st > 1000),
                   hasUnmergedCommits = unmerged,
                   hasUnsyncedCommits = unsynced\<rparr>))"

section \<open>Occurrence of a text in a line\<close>

text \<open>
  \<open>occurs lit s\<close> holds when the text \<open>lit\<close> is a contiguous part of \<open>s\<close>. A
  pattern can only match a line in which its literal occurs.
\<close>

fun occurs :: "string \<Rightarrow> string \<Rightarrow> bool" where
  "occurs lit [] = (lit = [])"
| "occurs lit (c # cs) = (take (length lit) (c # cs) = lit \<or> occurs lit cs)"

section \<open>Sample environments\<close>

text \<open>
  Modelled from the spec: \<^verbatim>\<open>trimWhitespace\<close> and \<^verbatim>\<open>trimNewLines\<close> are missing from
  the sources; the spec has them trim the surrounding whitespace (line breaks) of
  a text. \<open>strip P\<close> removes the characters satisfying \<open>P\<close> from both ends. It is
  used by the sample environments only.
\<close>

definition strip :: "(char \<Rightarrow> bool) \<Rightarrow> string \<Rightarrow> string" where
  "strip P s = rev (dropWhile P (rev (dropWhile P s)))"

text \<open>
  Modelled from the spec: \<^verbatim>\<open>getDirectoryName\<close> is missing from the sources; the
  spec has the display name be the final segment of the path. Used by the sample
  environments only.
\<close>

definition last_segment :: "string \<Rightarrow> string" where
  "last_segment s = rev (takeWhile (\<lambda>c. c \<noteq> CHR ''/'') (rev s))"

definition LF :: char where
  "LF = CHR 0x0A"

definition TAB :: char where
  "TAB = CHR 0x09"

text \<open>The outcome of a command: its output, or a rejection when there is none.\<close>

definition outcome :: "string option \<Rightarrow> string promise" where
  "outcome r = (case r of None \<Rightarrow> Inl (CommandError ''command failed'') | Some s \<Rightarrow> Inr s)"

text \<open>
  A folder \<^verbatim>\<open>/w\<close> that is not a working tree, with the subdirectories
  \<^verbatim>\<open>/w/app\<close>, \<^verbatim>\<open>/w/notes\<close> and \<^verbatim>\<open>/w/lib\<close>, of which the first and the last are
  working trees. The parameters are what the four queries on \<^verbatim>\<open>/w/app\<close> give:
  the outputs of the branch, short-status and ahead/behind commands (\<^const>\<open>None\<close>
  when the command fails) and the lines of the diff summary.
\<close>

definition sample_env :: "string option \<Rightarrow> string option \<Rightarrow> string option \<Rightarrow> string list \<Rightarrow> env" where
  "sample_env br st ab diff =
     \<lparr>cmd = (\<lambda>c.
         if c = ''git -C /w/app branch --show-current'' then outcome br
         else if c = ''git -C /w/app status -s'' then outcome st
         else if c = ''git -C /w/app rev-list --count --left-right HEAD'' @ upstream_suffix
           then outcome ab
         else if c = ''git -C /w/app rev-parse --is-inside-work-tree'' then Inr (''true'' @ [LF])
         else if c = ''git -C /w/lib rev-parse --is-inside-work-tree'' then Inr (''true'' @ [LF])
         else Inl (CommandError ''fatal: not a git repository'')),
      tryCmd = (\<lambda>c. if c = ''git -C /w/app diff --shortstat'' then diff else []),
      getDirectories = (\<lambda>d.
         if d = ''/w'' then Inr [''/w/app'', ''/w/notes'', ''/w/lib'']
         else Inl (CommandError ''ENOENT'')),
      getDirectoryName = last_segment,
      trimNewLines = strip (\<lambda>c. c = LF),
      trimWhitespace = strip is_space\<rparr>"

section \<open>The digit patterns\<close>

lemma is_digit_literals [simp]:
  "is_digit CHR ''0''" "is_digit CHR ''1''" "is_digit CHR ''2''" "is_digit CHR ''3''"
  "is_digit CHR ''4''" "is_digit CHR ''5''" "is_digit CHR ''6''" "is_digit CHR ''7''"
  "is_digit CHR ''8''" "is_digit CHR ''9''"
  by (simp_all add: is_digit_def)

lemma not_digit_literals [simp]:
  "\<not> is_digit CHR '' ''" "\<not> is_digit CHR '',''" "\<not> is_digit CHR ''(''"
  "\<not> is_digit CHR '')''" "\<not> is_digit CHR ''+''" "\<not> is_digit CHR ''-''"
  "\<not> is_digit CHR ''a''" "\<not> is_digit CHR ''c''" "\<not> is_digit CHR ''d''"
  "\<not> is_digit CHR ''e''" "\<not> is_digit CHR ''f''" "\<not> is_digit CHR ''g''"
  "\<not> is_digit CHR ''h''" "\<not> is_digit CHR ''i''" "\<not> is_digit CHR ''l''"
  "\<not> is_digit CHR ''n''" "\<not> is_digit CHR ''o''" "\<not> is_digit CHR ''r''"
  "\<not> is_digit CHR ''s''" "\<not> is_digit CHR ''t''"
  by (simp_all add: is_digit_def)

text \<open>
  On a run of digits that a non-digit ends, and for a literal that does not start
  with a digit, the greedy group is the whole run or nothing: giving back digits
  leaves a digit where the literal has to start.
\<close>

lemma match_digits_lit_run:
  assumes "\<forall>c\<in>set ds. is_digit c" and "\<not> is_digit x" and "lit \<noteq> []" and "\<not> is_digit (hd lit)"
  shows "match_digits_lit lit (ds @ x # rest) =
           (if ds \<noteq> [] \<and> take (length lit) (x # rest) = lit then Some ds else None)"
  using assms
proof (induction ds)
  case Nil
  then show ?case by simp
next
  case (Cons d ds)
  show ?case
  proof (cases "ds = []")
    case True
    with Cons.prems show ?thesis by simp
  next
    case False
    have "take (length lit) (ds @ x # rest) \<noteq> lit"
    proof
      assume h: "take (length lit) (ds @ x # rest) = lit"
      from False obtain d' ds' where ds: "ds = d' # ds'" by (cases ds) auto
      from Cons.prems(3) obtain l ls where lit: "lit = l # ls" by (cases lit) auto
      from h ds lit have "l = d'" by simp
      with Cons.prems ds lit show False by simp
    qed
    with Cons False show ?thesis by simp
  qed
qed

lemma match_group_skip:
  "\<not> is_digit c \<Longrightarrow> match_group lit (c # cs) = match_group lit cs"
  by simp

lemma match_group_no_digits:
  "\<forall>c\<in>set pre. \<not> is_digit c \<Longrightarrow> match_group lit (pre @ s) = match_group lit s"
  by (induction pre) simp_all

lemma match_group_run:
  assumes "\<forall>c\<in>set ds. is_digit c" and "\<not> is_digit x" and "lit \<noteq> []" and "\<not> is_digit (hd lit)"
  shows "match_group lit (ds @ x # rest) =
           (if ds \<noteq> [] \<and> take (length lit) (x # rest) = lit then Some ds
            else match_group lit rest)"
  using assms
proof (induction ds)
  case Nil
  then show ?case by simp
next
  case (Cons d ds)
  have run: "match_digits_lit lit ((d # ds) @ x # rest) =
           (if take (length lit) (x # rest) = lit then Some (d # ds) else None)"
    using match_digits_lit_run [of "d # ds" x lit rest] Cons.prems by simp
  show ?case
  proof (cases "take (length lit) (x # rest) = lit")
    case True
    with run show ?thesis by simp
  next
    case False
    with run have "match_group lit ((d # ds) @ x # rest) = match_group lit (ds @ x # rest)"
      by simp
    also have "\<dots> = match_group lit rest"
      using Cons False by simp
    finally show ?thesis using False by simp
  qed
qed

text \<open>A match contains the literal: the group is followed by it.\<close>

lemma match_digits_lit_occurs:
  "match_digits_lit lit s = Some g \<Longrightarrow> occurs lit s"
proof (induction s arbitrary: g)
  case Nil
  then show ?case by simp
next
  case (Cons c cs)
  show ?case
  proof (cases "match_digits_lit lit cs")
    case None
    with Cons.prems have "take (length lit) cs = lit"
      by (simp split: if_splits)
    then have "occurs lit cs" by (cases cs) auto
    then show ?thesis by simp
  next
    case (Some g')
    with Cons.IH have "occurs lit cs" by simp
    then show ?thesis by simp
  qed
qed

lemma match_group_occurs:
  "match_group lit s = Some g \<Longrightarrow> occurs lit s"
proof (induction s)
  case Nil
  then show ?case by simp
next
  case (Cons c cs)
  show ?case
  proof (cases "match_digits_lit lit (c # cs)")
    case None
    with Cons show ?thesis by simp
  next
    case (Some g')
    then show ?thesis by (rule match_digits_lit_occurs)
  qed
qed


lemma occurs_iff: "occurs lit s \<longleftrightarrow> (\<exists>pre post. s = pre @ lit @ post)"
proof (induction s)
  case Nil
  then show ?case by auto
next
  case (Cons c cs)
  show ?case
  proof
    assume "occurs lit (c # cs)"
    then consider "take (length lit) (c # cs) = lit" | "occurs lit cs" by auto
    then show "\<exists>pre post. c # cs = pre @ lit @ post"
    proof cases
      case 1
      then have "c # cs = [] @ lit @ drop (length lit) (c # cs)"
        by (metis append_Nil append_take_drop_id)
      then show ?thesis by blast
    next
      case 2
      with Cons obtain pre post where "cs = pre @ lit @ post" by auto
      then have "c # cs = (c # pre) @ lit @ post" by simp
      then show ?thesis by blast
    qed
  next
    assume "\<exists>pre post. c # cs = pre @ lit @ post"
    then obtain pre post where eq: "c # cs = pre @ lit @ post" by auto
    show "occurs lit (c # cs)"
    proof (cases pre)
      case Nil
      with eq have "take (length lit) (c # cs) = lit" by simp
      then show ?thesis by simp
    next
      case (Cons a pre')
      with eq have "cs = pre' @ lit @ post" by simp
      with Cons.IH have "occurs lit cs" by blast
      then show ?thesis by simp
    qed
  qed
qed





section \<open>The modified counts\<close>



section \<open>Singular word forms\<close>

lemma match_group_none_no_digits:
  "\<forall>c\<in>set s. \<not> is_digit c \<Longrightarrow> match_group lit s = None"
  using match_group_no_digits [of s lit "[]"] by simp

lemma match_group_none_no_occurrence:
  "\<nexists>u v. s = u @ lit @ v \<Longrightarrow> match_group lit s = None"
  using match_group_occurs [of lit s] occurs_iff [of lit s]
  by (cases "match_group lit s") auto

text \<open>
  None of the three patterns matches within a clause in the singular form: the
  search passes the clause and goes on in the text after it.
\<close>

lemma pass_file_clause:
  assumes "lit \<in> {'' files'', '' insertions'', '' deletions''}"
    and "\<forall>c\<in>set pre. \<not> is_digit c" and "\<forall>c\<in>set a. is_digit c"
  shows "match_group lit (pre @ a @ '' file changed'' @ rest) = match_group lit rest"
proof -
  from assms(1) have lit: "lit \<noteq> []" "\<not> is_digit (hd lit)" by auto
  have "match_group lit (pre @ a @ '' file changed'' @ rest)
      = match_group lit (a @ '' file changed'' @ rest)"
    using assms(2) by (rule match_group_no_digits)
  also have "\<dots> = match_group lit rest"
    using assms(1,3) lit match_group_run [of a "CHR '' ''" lit "''file changed'' @ rest"]
    by auto
  finally show ?thesis .
qed

lemma pass_insertion_clause:
  assumes "lit \<in> {'' files'', '' insertions'', '' deletions''}" and "\<forall>c\<in>set b. is_digit c"
  shows "match_group lit ('', '' @ b @ '' insertion(+)'' @ rest) = match_group lit rest"
proof -
  from assms(1) have lit: "lit \<noteq> []" "\<not> is_digit (hd lit)" by auto
  have "match_group lit ('', '' @ b @ '' insertion(+)'' @ rest)
      = match_group lit (b @ '' insertion(+)'' @ rest)"
    by simp
  also have "\<dots> = match_group lit rest"
    using assms lit match_group_run [of b "CHR '' ''" lit "''insertion(+)'' @ rest"]
    by auto
  finally show ?thesis .
qed

lemma pass_deletion_clause:
  assumes "lit \<in> {'' files'', '' insertions'', '' deletions''}" and "\<forall>c\<in>set d. is_digit c"
  shows "match_group lit ('', '' @ d @ '' deletion(-)'' @ rest) = match_group lit rest"
proof -
  from assms(1) have lit: "lit \<noteq> []" "\<not> is_digit (hd lit)" by auto
  have "match_group lit ('', '' @ d @ '' deletion(-)'' @ rest)
      = match_group lit (d @ '' deletion(-)'' @ rest)"
    by simp
  also have "\<dots> = match_group lit rest"
    using assms lit match_group_run [of d "CHR '' ''" lit "''deletion(-)'' @ rest"]
    by auto
  finally show ?thesis .
qed

text \<open>
  A line whose clauses are all singular: the file clause, then optionally the
  insertion clause, then optionally the deletion clause, between a text \<open>pre\<close>
  and a text \<open>post\<close> that hold no digit.
\<close>

lemma singular_line_no_match:
  assumes "lit \<in> {'' files'', '' insertions'', '' deletions''}"
    and "\<forall>c\<in>set pre. \<not> is_digit c" and "\<forall>c\<in>set post. \<not> is_digit c"
    and "\<forall>c\<in>set a. is_digit c" and "\<forall>c\<in>set b. is_digit c" and "\<forall>c\<in>set d. is_digit c"
    and "ins = [] \<or> ins = '', '' @ b @ '' insertion(+)''"
    and "del = [] \<or> del = '', '' @ d @ '' deletion(-)''"
  shows "match_group lit (pre @ a @ '' file changed'' @ ins @ del @ post) = None"
proof -
  have post: "match_group lit post = None"
    using assms(3) by (rule match_group_none_no_digits)
  have del: "match_group lit (del @ post) = None"
    using assms(8)
  proof
    assume "del = []"
    with post show ?thesis by simp
  next
    assume "del = '', '' @ d @ '' deletion(-)''"
    with post pass_deletion_clause [OF assms(1,6), of post] show ?thesis by simp
  qed
  have ins: "match_group lit (ins @ del @ post) = None"
    using assms(7)
  proof
    assume "ins = []"
    with del show ?thesis by simp
  next
    assume "ins = '', '' @ b @ '' insertion(+)''"
    with del pass_insertion_clause [OF assms(1,5), of "del @ post"] show ?thesis by simp
  qed
  from ins pass_file_clause [OF assms(1,2,4), of "ins @ del @ post"] show ?thesis by simp
qed

lemma singular_line_zero:
  assumes "\<forall>c\<in>set pre. \<not> is_digit c" and "\<forall>c\<in>set post. \<not> is_digit c"
    and "\<forall>c\<in>set a. is_digit c" and "\<forall>c\<in>set b. is_digit c" and "\<forall>c\<in>set d. is_digit c"
    and "ins = [] \<or> ins = '', '' @ b @ '' insertion(+)''"
    and "del = [] \<or> del = '', '' @ d @ '' deletion(-)''"
  shows "parseModifiedCounts (pre @ a @ '' file changed'' @ ins @ del @ post)
       = \<lparr>files = 0, insertions = 0, deletions = 0\<rparr>"
  using singular_line_no_match [OF _ assms, of "'' files''"]
    singular_line_no_match [OF _ assms, of "'' insertions''"]
    singular_line_no_match [OF _ assms, of "'' deletions''"]
  by (simp add: parseModifiedCounts_def Number_or_0_def)

text \<open>A line for one file: whatever follows the file clause, no file count is found.\<close>

lemma one_file_line_files_zero:
  assumes "\<forall>c\<in>set pre. \<not> is_digit c" and "\<forall>c\<in>set a. is_digit c"
    and "\<nexists>u v. rest = u @ '' files'' @ v"
  shows "files (parseModifiedCounts (pre @ a @ '' file changed'' @ rest)) = 0"
proof -
  have "match_group '' files'' (pre @ a @ '' file changed'' @ rest) = match_group '' files'' rest"
    using assms(1,2) by (intro pass_file_clause) simp_all
  also have "\<dots> = None"
    using assms(3) by (rule match_group_none_no_occurrence)
  finally show ?thesis
    by (simp add: parseModifiedCounts_def Number_or_0_def)
qed

text \<open>What the status record holds of the first line of the diff summary.\<close>

lemma getGitStatusInfo_counts:
  assumes "tryCmd e (''git -C '' @ p @ '' diff --shortstat'') = stats # others"
    and "getGitStatusInfo e p = Inr st"
  shows "modifiedCount st =
           (if stats = [] then \<lparr>files = 0, insertions = 0, deletions = 0\<rparr>
            else parseModifiedCounts stats)"
    and "isDirty st \<longleftrightarrow> files (modifiedCount st) \<noteq> 0"
  using assms
  by (auto simp add: getGitStatusInfo_def promise_all4_def getModifiedCounts_def
      Boolean_num_def Let_def split: sum.splits prod.splits)

text \<open>
  Claim C6. Every summary line whose clauses use the singular word forms gives
  the counts 0, 0 and 0, since the three patterns ask for the plural words: the
  clause \<^verbatim>\<open>file changed\<close> after a run of digits, followed or not by the clause
  \<^verbatim>\<open>insertion(+)\<close>, followed or not by the clause \<^verbatim>\<open>deletion(-)\<close>, with any text
  without digits before and after, as in
  \<^verbatim>\<open>1 file changed, 1 insertion(+), 1 deletion(-)\<close>; and more generally every line
  in which none of the three plural words occurs. The status record of a
  repository with one modified file, where the line is the clause
  \<^verbatim>\<open>file changed\<close> followed by any text in which the plural \<^verbatim>\<open>files\<close> does not
  occur (so also by insertions and deletions in the plural), has the file count 0
  and \<open>isDirty\<close> false.
\<close>

theorem singular_forms_count_zero:
  "(\<forall>pre a b d ins del post stats.
      (\<forall>c\<in>set pre. \<not> is_digit c) \<and> (\<forall>c\<in>set post. \<not> is_digit c)
      \<and> (\<forall>c\<in>set a. is_digit c) \<and> (\<forall>c\<in>set b. is_digit c) \<and> (\<forall>c\<in>set d. is_digit c)
      \<and> (ins = [] \<or> ins = '', '' @ b @ '' insertion(+)'')
      \<and> (del = [] \<or> del = '', '' @ d @ '' deletion(-)'')
      \<and> stats = pre @ a @ '' file changed'' @ ins @ del @ post \<longrightarrow>
      parseModifiedCounts stats = \<lparr>files = 0, insertions = 0, deletions = 0\<rparr>
      \<and> (\<forall>e p more st.
            tryCmd e (''git -C '' @ p @ '' diff --shortstat'') = stats # more
            \<and> getGitStatusInfo e p = Inr st \<longrightarrow>
            getModifiedCounts e p = Inr \<lparr>files = 0, insertions = 0, deletions = 0\<rparr>
            \<and> modifiedCount st = \<lparr>files = 0, insertions = 0, deletions = 0\<rparr>
            \<and> \<not> isDirty st))
   \<and> (\<forall>stats.
        (\<nexists>u v. stats = u @ '' files'' @ v) \<and> (\<nexists>u v. stats = u @ '' insertions'' @ v)
        \<and> (\<nexists>u v. stats = u @ '' deletions'' @ v) \<longrightarrow>
        parseModifiedCounts stats = \<lparr>files = 0, insertions = 0, deletions = 0\<rparr>)
   \<and> (\<forall>pre a rest e p more st.
        (\<forall>c\<in>set pre. \<not> is_digit c) \<and> (\<forall>c\<in>set a. is_digit c)
        \<and> (\<nexists>u v. rest = u @ '' files'' @ v)
        \<and> tryCmd e (''git -C '' @ p @ '' diff --shortstat'')
            = (pre @ a @ '' file changed'' @ rest) # more
        \<and> getGitStatusInfo e p = Inr st \<longrightarrow>
        files (modifiedCount st) = 0 \<and> \<not> isDirty st)"
proof (intro conjI allI impI)
  fix pre a b d ins del post stats
  assume h: "(\<forall>c\<in>set pre. \<not> is_digit c) \<and> (\<forall>c\<in>set post. \<not> is_digit c)
      \<and> (\<forall>c\<in>set a. is_digit c) \<and> (\<forall>c\<in>set b. is_digit c) \<and> (\<forall>c\<in>set d. is_digit c)
      \<and> (ins = [] \<or> ins = '', '' @ b @ '' insertion(+)'')
      \<and> (del = [] \<or> del = '', '' @ d @ '' deletion(-)'')
      \<and> stats = pre @ a @ '' file changed'' @ ins @ del @ post"
  then have zero: "parseModifiedCounts stats = \<lparr>files = 0, insertions = 0, deletions = 0\<rparr>"
    using singular_line_zero [of pre post a b d ins del] by blast
  then show "parseModifiedCounts stats = \<lparr>files = 0, insertions = 0, deletions = 0\<rparr>" .
  fix e p more st
  assume r: "tryCmd e (''git -C '' @ p @ '' diff --shortstat'') = stats # more
      \<and> getGitStatusInfo e p = Inr st"
  from r zero show "getModifiedCounts e p = Inr \<lparr>files = 0, insertions = 0, deletions = 0\<rparr>"
    by (simp add: getModifiedCounts_def)
  from r zero have mc: "modifiedCount st = \<lparr>files = 0, insertions = 0, deletions = 0\<rparr>"
    using getGitStatusInfo_counts(1) [of e p stats more st] by simp
  then show "modifiedCount st = \<lparr>files = 0, insertions = 0, deletions = 0\<rparr>" .
  from r mc show "\<not> isDirty st"
    using getGitStatusInfo_counts(2) [of e p stats more st] by simp
next
  fix stats
  assume "(\<nexists>u v. stats = u @ '' files'' @ v) \<and> (\<nexists>u v. stats = u @ '' insertions'' @ v)
        \<and> (\<nexists>u v. stats = u @ '' deletions'' @ v)"
  then show "parseModifiedCounts stats = \<lparr>files = 0, insertions = 0, deletions = 0\<rparr>"
    by (simp add: parseModifiedCounts_def Number_or_0_def match_group_none_no_occurrence)
next
  fix pre a rest e p more st
  assume h: "(\<forall>c\<in>set pre. \<not> is_digit c) \<and> (\<forall>c\<in>set a. is_digit c)
        \<and> (\<nexists>u v. rest = u @ '' files'' @ v)
        \<and> tryCmd e (''git -C '' @ p @ '' diff --shortstat'')
            = (pre @ a @ '' file changed'' @ rest) # more
        \<and> getGitStatusInfo e p = Inr st"
  let ?s = "pre @ a @ '' file changed'' @ rest"
  from h have "files (parseModifiedCounts ?s) = 0"
    using one_file_line_files_zero [of pre a rest] by blast
  with h have f: "files (modifiedCount st) = 0"
    using getGitStatusInfo_counts(1) [of e p ?s more st] by simp
  then show "files (modifiedCount st) = 0" .
  from h f show "\<not> isDirty st"
    using getGitStatusInfo_counts(2) [of e p ?s more st] by simp
qed

theorem singular_forms_count_zero_witness:
  "parseModifiedCounts ''1 file changed, 1 insertion(+), 1 deletion(-)''
     = \<lparr>files = 0, insertions = 0, deletions = 0\<rparr>
   \<and> parseModifiedCounts '' 1 file changed, 1 insertion(+)''
     = \<lparr>files = 0, insertions = 0, deletions = 0\<rparr>
   \<and> parseModifiedCounts '' 1 file changed, 1 deletion(-)''
     = \<lparr>files = 0, insertions = 0, deletions = 0\<rparr>
   \<and> (\<exists>st. getGitStatusInfo
              (sample_env (Some ''main'') (Some '' M a.ts'') None
                 [''1 file changed, 1 insertion(+), 1 deletion(-)'']) ''/w/app'' = Inr st
          \<and> modifiedCount st = \<lparr>files = 0, insertions = 0, deletions = 0\<rparr>
          \<and> \<not> isDirty st)
   \<and> (\<exists>st. getGitStatusInfo
              (sample_env (Some ''main'') (Some '' M a.ts'') None
                 ['' 1 file changed, 3 insertions(+), 2 deletions(-)'']) ''/w/app'' = Inr st
          \<and> modifiedCount st = \<lparr>files = 0, insertions = 3, deletions = 2\<rparr>
          \<and> \<not> isDirty st)"
proof -
  let ?z = "\<lparr>files = 0, insertions = 0, deletions = 0\<rparr>"
  let ?s3 = "''1 file changed, 1 insertion(+), 1 deletion(-)''"
  let ?s1 = "'' 1 file changed, 3 insertions(+), 2 deletions(-)''"
  let ?e3 = "sample_env (Some ''main'') (Some '' M a.ts'') None [?s3]"
  let ?e1 = "sample_env (Some ''main'') (Some '' M a.ts'') None [?s1]"
  note shape = singular_forms_count_zero [THEN conjunct1, rule_format]
  note one_file = singular_forms_count_zero [THEN conjunct2, THEN conjunct2, rule_format]
  have all3: "parseModifiedCounts ?s3 = ?z"
    using shape [where pre = "[]" and a = "''1''" and b = "''1''" and d = "''1''"
        and ins = "'', 1 insertion(+)''" and del = "'', 1 deletion(-)''" and post = "[]"
        and stats = ?s3]
    by simp
  have ins_only: "parseModifiedCounts '' 1 file changed, 1 insertion(+)'' = ?z"
    using shape [where pre = "'' ''" and a = "''1''" and b = "''1''" and d = "[]"
        and ins = "'', 1 insertion(+)''" and del = "[]" and post = "[]"
        and stats = "'' 1 file changed, 1 insertion(+)''"]
    by simp
  have del_only: "parseModifiedCounts '' 1 file changed, 1 deletion(-)'' = ?z"
    using shape [where pre = "'' ''" and a = "''1''" and b = "[]" and d = "''1''"
        and ins = "[]" and del = "'', 1 deletion(-)''" and post = "[]"
        and stats = "'' 1 file changed, 1 deletion(-)''"]
    by simp
  have t3: "tryCmd ?e3 (''git -C '' @ ''/w/app'' @ '' diff --shortstat'') = ?s3 # []"
    by (simp add: sample_env_def)
  have r3: "getGitStatusInfo ?e3 ''/w/app'' =
      Inr \<lparr>name = ''app'', path = ''/w/app'', status = '' M a.ts'', branch = ''main'',
           diffCommitCount = \<lparr>ahead = None, behind = None\<rparr>,
           modifiedCount = \<lparr>files = 0, insertions = 0, deletions = 0\<rparr>,
           isDirty = False, hasUnsavedChanges = False, tooManyChanges = False,
           hasUnmergedCommits = False, hasUnsyncedCommits = False\<rparr>"
    by code_simp
  then obtain st3 where st3: "getGitStatusInfo ?e3 ''/w/app'' = Inr st3" by blast
  have "modifiedCount st3 = ?z \<and> \<not> isDirty st3"
    using shape [where pre = "[]" and a = "''1''" and b = "''1''" and d = "''1''"
        and ins = "'', 1 insertion(+)''" and del = "'', 1 deletion(-)''" and post = "[]"
        and stats = ?s3, THEN conjunct2, rule_format, of ?e3 "''/w/app''" "[]" st3]
      t3 st3
    by simp
  with st3 have w3: "\<exists>st. getGitStatusInfo ?e3 ''/w/app'' = Inr st
      \<and> modifiedCount st = ?z \<and> \<not> isDirty st"
    by blast
  have no_files: "\<nexists>u v. '', 3 insertions(+), 2 deletions(-)'' = u @ '' files'' @ v"
    unfolding occurs_iff [symmetric] by simp
  have t1: "tryCmd ?e1 (''git -C '' @ ''/w/app'' @ '' diff --shortstat'')
      = ('' '' @ ''1'' @ '' file changed'' @ '', 3 insertions(+), 2 deletions(-)'') # []"
    by (simp add: sample_env_def)
  have r1: "getGitStatusInfo ?e1 ''/w/app'' =
      Inr \<lparr>name = ''app'', path = ''/w/app'', status = '' M a.ts'', branch = ''main'',
           diffCommitCount = \<lparr>ahead = None, behind = None\<rparr>,
           modifiedCount = \<lparr>files = 0, insertions = 3, deletions = 2\<rparr>,
           isDirty = False, hasUnsavedChanges = False, tooManyChanges = False,
           hasUnmergedCommits = False, hasUnsyncedCommits = False\<rparr>"
    by code_simp
  have "files (modifiedCount st) = 0 \<and> \<not> isDirty st"
    if "getGitStatusInfo ?e1 ''/w/app'' = Inr st" for st
    using one_file [where pre = "'' ''" and a = "''1''"
        and rest = "'', 3 insertions(+), 2 deletions(-)''" and e = ?e1 and p = "''/w/app''"
        and more = "[]" and st = st] no_files t1 that
    by simp
  with r1 have w1: "\<exists>st. getGitStatusInfo ?e1 ''/w/app'' = Inr st
      \<and> modifiedCount st = \<lparr>files = 0, insertions = 3, deletions = 2\<rparr> \<and> \<not> isDirty st"
    by simp
  from all3 ins_only del_only w3 w1 show ?thesis by blast
qed

section \<open>The status aggregator\<close>

text \<open>The three extractors with a fallback are always fulfilled.\<close>

lemma getGitShortStatus_fulfilled: "\<exists>s. getGitShortStatus e p = Inr s"
  by (simp add: getGitShortStatus_def split: sum.split)

lemma getAheadBehindCount_fulfilled: "\<exists>d. getAheadBehindCount e p br = Inr d"
  by (simp add: getAheadBehindCount_def split: sum.split prod.split)

lemma getModifiedCounts_fulfilled: "\<exists>m. getModifiedCounts e p = Inr m"
  by (simp add: getModifiedCounts_def split: list.split)

text \<open>The record that the aggregator builds from the four values.\<close>

lemma getGitStatusInfo_Inr:
  assumes "getGitStatusInfo e p = Inr st"
  obtains br si dcc mc where
    "getCurrentBranch e p = Inr br" and "getGitShortStatus e p = Inr si"
    and "getAheadBehindCount e p None = Inr dcc" and "getModifiedCounts e p = Inr mc"
    and "st = \<lparr>name = getDirectoryName e p, path = p,
               status = IShortStatusInfo.status si, branch = br,
               diffCommitCount = dcc, modifiedCount = mc,
               isDirty = Boolean_num (files mc),
               hasUnsavedChanges = (Boolean_num (files mc) \<or> Boolean_opt (ahead dcc)),
               tooManyChanges =
                 or_flag (IShortStatusInfo.tooManyChanges si)
                   (length (IShortStatusInfo.status si) > 1000),
               hasUnmergedCommits = Boolean_opt (ahead dcc),
               hasUnsyncedCommits = Boolean_opt (or_num (ahead dcc) (behind dcc))\<rparr>"
  using assms
  by (auto simp add: getGitStatusInfo_def promise_all4_def Let_def split: sum.splits)

lemma getGitStatusInfo_fulfilled:
  assumes "cmd e (''git -C '' @ p @ '' branch --show-current'') = Inr resp"
  shows "\<exists>st. getGitStatusInfo e p = Inr st \<and> path st = p
           \<and> name st = getDirectoryName e p \<and> branch st \<noteq> []"
proof -
  obtain s where s: "getGitShortStatus e p = Inr s"
    using getGitShortStatus_fulfilled by blast
  obtain d where d: "getAheadBehindCount e p None = Inr d"
    using getAheadBehindCount_fulfilled by blast
  obtain m where m: "getModifiedCounts e p = Inr m"
    using getModifiedCounts_fulfilled by blast
  from assms s d m show ?thesis
    by (simp add: getGitStatusInfo_def promise_all4_def getCurrentBranch_def Let_def)
qed

text \<open>
  Claim C1 (as amended). The short-status, ahead/behind and modified-counts
  extractors are fulfilled whatever their query does, and \<open>getGitStatusInfo\<close>
  returns a record (for the given path, named by \<open>getDirectoryName\<close>, with a
  branch text that is not empty) whenever the branch query succeeds, also when
  the other three queries fail. \<open>getCurrentBranch\<close> has no fallback: when the branch query fails,
  the join is rejected with the error of that query.
\<close>

theorem getGitStatusInfo_join:
  "(\<exists>s. getGitShortStatus e p = Inr s)
   \<and> (\<exists>d. getAheadBehindCount e p None = Inr d)
   \<and> (\<exists>m. getModifiedCounts e p = Inr m)
   \<and> (\<forall>resp. cmd e (''git -C '' @ p @ '' branch --show-current'') = Inr resp \<longrightarrow>
         (\<exists>st. getGitStatusInfo e p = Inr st \<and> path st = p
            \<and> name st = getDirectoryName e p \<and> branch st \<noteq> []))
   \<and> (\<forall>err. cmd e (''git -C '' @ p @ '' branch --show-current'') = Inl err \<longrightarrow>
         getCurrentBranch e p = Inl err \<and> getGitStatusInfo e p = Inl err)"
proof -
  obtain s where s: "getGitShortStatus e p = Inr s"
    using getGitShortStatus_fulfilled by blast
  obtain d where d: "getAheadBehindCount e p None = Inr d"
    using getAheadBehindCount_fulfilled by blast
  obtain m where m: "getModifiedCounts e p = Inr m"
    using getModifiedCounts_fulfilled by blast
  have ok: "\<exists>st. getGitStatusInfo e p = Inr st \<and> path st = p
      \<and> name st = getDirectoryName e p \<and> branch st \<noteq> []"
    if "cmd e (''git -C '' @ p @ '' branch --show-current'') = Inr resp" for resp
    using that by (rule getGitStatusInfo_fulfilled)
  have bad: "getCurrentBranch e p = Inl err \<and> getGitStatusInfo e p = Inl err"
    if "cmd e (''git -C '' @ p @ '' branch --show-current'') = Inl err" for err
    using that
    by (simp add: getGitStatusInfo_def promise_all4_def getCurrentBranch_def)
  from s d m ok bad show ?thesis by blast
qed

theorem getGitStatusInfo_join_witness:
  "(\<exists>st. getGitStatusInfo (sample_env (Some (''main'' @ [LF])) None None []) ''/w/app'' = Inr st)
   \<and> isl (cmd (sample_env (Some (''main'' @ [LF])) None None []) ''git -C /w/app status -s'')
   \<and> getGitStatusInfo (sample_env None None None []) ''/w/app''
       = Inl (CommandError ''command failed'')"
proof -
  let ?ok = "sample_env (Some (''main'' @ [LF])) None None []"
  let ?bad = "sample_env None None None []"
  have c: "cmd (sample_env br st ab l) (''git -C '' @ ''/w/app'' @ '' branch --show-current'')
      = outcome br" for br st ab l
    by (simp add: sample_env_def)
  have f: "isl (cmd ?ok ''git -C /w/app status -s'')"
    by (simp add: sample_env_def outcome_def)
  have c1: "cmd ?ok (''git -C '' @ ''/w/app'' @ '' branch --show-current'') = Inr (''main'' @ [LF])"
    by (simp only: c outcome_def option.case)
  have c2: "cmd ?bad (''git -C '' @ ''/w/app'' @ '' branch --show-current'')
      = Inl (CommandError ''command failed'')"
    by (simp only: c outcome_def option.case)
  from getGitStatusInfo_join [of ?ok "''/w/app''"] c1
  have one: "\<exists>st. getGitStatusInfo ?ok ''/w/app'' = Inr st"
    by blast
  from getGitStatusInfo_join [of ?bad "''/w/app''"] c2
  have two: "getGitStatusInfo ?bad ''/w/app'' = Inl (CommandError ''command failed'')"
    by blast
  from one f two show ?thesis by blast
qed

text \<open>
  The claim C1 as stated fails: on a path where the short-status, ahead/behind
  and diff queries all succeed and only the branch query fails, no record is
  returned.
\<close>

theorem getGitStatusInfo_join_counterexample:
  "getGitStatusInfo
     (sample_env None (Some ('' M a.ts'' @ [LF])) (Some (''2'' @ [TAB] @ ''1'' @ [LF]))
        ['' 1 file changed, 1 insertion(+)'']) ''/w/app''
   = Inl (CommandError ''command failed'')"
  by (simp add: getGitStatusInfo_def promise_all4_def getCurrentBranch_def
      sample_env_def outcome_def)

text \<open>
  Claim C2. In every record that \<open>getGitStatusInfo\<close> returns, \<open>tooManyChanges\<close> is
  true exactly when the short-status query failed or the stored status text is
  longer than 1000 characters. The stored text is the trimmed response, or empty
  when the query failed.
\<close>

theorem tooManyChanges_iff:
  assumes "getGitStatusInfo e p = Inr st"
  shows "(tooManyChanges st \<longleftrightarrow>
            isl (cmd e (''git -C '' @ p @ '' status -s'')) \<or> 1000 < length (status st))
       \<and> status st =
           (case cmd e (''git -C '' @ p @ '' status -s'') of
              Inr resp \<Rightarrow> trimNewLines e resp | Inl err \<Rightarrow> [])"
proof -
  from assms obtain si where
    si: "getGitShortStatus e p = Inr si"
    and st: "status st = IShortStatusInfo.status si"
    and tmc: "tooManyChanges st =
       or_flag (IShortStatusInfo.tooManyChanges si) (length (IShortStatusInfo.status si) > 1000)"
    by (rule getGitStatusInfo_Inr) simp
  show ?thesis
  proof (cases "cmd e (''git -C '' @ p @ '' status -s'')")
    case (Inl err)
    with si have "si = \<lparr>IShortStatusInfo.status = [],
        IShortStatusInfo.tooManyChanges = Some True\<rparr>"
      by (simp add: getGitShortStatus_def)
    with st tmc Inl show ?thesis by (simp add: or_flag_def)
  next
    case (Inr resp)
    with si have "si = \<lparr>IShortStatusInfo.status = trimNewLines e resp,
        IShortStatusInfo.tooManyChanges = None\<rparr>"
      by (simp add: getGitShortStatus_def)
    with st tmc Inr show ?thesis by (simp add: or_flag_def)
  qed
qed

theorem tooManyChanges_iff_witness:
  "\<exists>st. getGitStatusInfo
           (sample_env (Some ''main'') (Some (replicate 1001 CHR ''M'')) None []) ''/w/app'' = Inr st
      \<and> tooManyChanges st
      \<and> \<not> isl (cmd (sample_env (Some ''main'') (Some (replicate 1001 CHR ''M'')) None [])
                 ''git -C /w/app status -s'')"
proof -
  let ?e = "sample_env (Some ''main'') (Some (replicate 1001 CHR ''M'')) None []"
  have c: "cmd ?e (''git -C '' @ ''/w/app'' @ '' status -s'') = Inr (replicate 1001 CHR ''M'')"
    by (simp add: sample_env_def outcome_def)
  have t: "trimNewLines ?e (replicate 1001 CHR ''M'') = replicate 1001 CHR ''M''"
    by (simp add: sample_env_def strip_def LF_def)
  have "cmd ?e (''git -C '' @ ''/w/app'' @ '' branch --show-current'') = Inr ''main''"
    by (simp add: sample_env_def outcome_def)
  then obtain st where st: "getGitStatusInfo ?e ''/w/app'' = Inr st"
    using getGitStatusInfo_fulfilled by blast
  from tooManyChanges_iff [OF st] c t have "tooManyChanges st" by simp
  with st c show ?thesis by auto
qed

text \<open>
  Claim C3. When the ahead/behind query fails (no upstream is configured),
  \<open>getAheadBehindCount\<close> reports \<open>ahead\<close> and \<open>behind\<close> both absent, not zero, and
  in the record that \<open>getGitStatusInfo\<close> returns the counts are the absent ones and
  \<open>hasUnmergedCommits\<close> and \<open>hasUnsyncedCommits\<close> are both false.
\<close>

theorem no_upstream_absent:
  assumes "cmd e (''git -C '' @ p @ '' rev-list --count --left-right HEAD'' @ upstream_suffix)
             = Inl err"
  shows "getAheadBehindCount e p None = Inr \<lparr>ahead = None, behind = None\<rparr>
       \<and> (\<forall>st. getGitStatusInfo e p = Inr st \<longrightarrow>
             ahead (diffCommitCount st) = None \<and> behind (diffCommitCount st) = None
           \<and> ahead (diffCommitCount st) \<noteq> Some 0 \<and> behind (diffCommitCount st) \<noteq> Some 0
           \<and> \<not> hasUnmergedCommits st \<and> \<not> hasUnsyncedCommits st)"
proof -
  have ab: "getAheadBehindCount e p None = Inr \<lparr>ahead = None, behind = None\<rparr>"
    using assms by (simp add: getAheadBehindCount_def)
  have "ahead (diffCommitCount st) = None \<and> behind (diffCommitCount st) = None
      \<and> ahead (diffCommitCount st) \<noteq> Some 0 \<and> behind (diffCommitCount st) \<noteq> Some 0
      \<and> \<not> hasUnmergedCommits st \<and> \<not> hasUnsyncedCommits st"
    if "getGitStatusInfo e p = Inr st" for st
    using that ab
    by (elim getGitStatusInfo_Inr) (simp add: Boolean_opt_def or_num_def)
  with ab show ?thesis by blast
qed

theorem no_upstream_absent_witness:
  "\<exists>st. getGitStatusInfo
           (sample_env (Some ''feature'') (Some []) None
              [''4 files changed, 15 insertions(+), 5 deletions(-)'']) ''/w/app'' = Inr st
      \<and> diffCommitCount st = \<lparr>ahead = None, behind = None\<rparr>
      \<and> \<not> hasUnmergedCommits st \<and> \<not> hasUnsyncedCommits st \<and> isDirty st"
proof -
  let ?e = "sample_env (Some ''feature'') (Some []) None
              [''4 files changed, 15 insertions(+), 5 deletions(-)'']"
  have c: "cmd ?e (''git -C '' @ ''/w/app'' @ '' rev-list --count --left-right HEAD'' @ upstream_suffix)
      = Inl (CommandError ''command failed'')"
    by (simp add: sample_env_def outcome_def upstream_suffix_def)
  have "getGitStatusInfo ?e ''/w/app'' =
      Inr \<lparr>name = ''app'', path = ''/w/app'', status = [], branch = ''feature'',
           diffCommitCount = \<lparr>ahead = None, behind = None\<rparr>,
           modifiedCount = \<lparr>files = 4, insertions = 15, deletions = 5\<rparr>,
           isDirty = True, hasUnsavedChanges = True, tooManyChanges = False,
           hasUnmergedCommits = False, hasUnsyncedCommits = False\<rparr>"
    by code_simp
  with no_upstream_absent [OF c] show ?thesis by simp
qed

text \<open>
  Claim C4. Every record that \<open>getGitStatusInfo\<close> returns satisfies the four
  derivations of the flags: \<open>isDirty\<close> is \<open>files > 0\<close>; \<open>hasUnmergedCommits\<close> is
  that \<open>ahead\<close> is present and positive; \<open>hasUnsyncedCommits\<close> is
  \<open>hasUnmergedCommits\<close> or that \<open>behind\<close> is present and positive;
  \<open>hasUnsavedChanges\<close> is \<open>isDirty\<close> or \<open>hasUnmergedCommits\<close>.
\<close>

theorem flag_derivations:
  assumes "getGitStatusInfo e p = Inr st"
  shows "(isDirty st \<longleftrightarrow> 0 < files (modifiedCount st))
       \<and> (hasUnmergedCommits st \<longleftrightarrow> (\<exists>n. ahead (diffCommitCount st) = Some n \<and> 0 < n))
       \<and> (hasUnsyncedCommits st \<longleftrightarrow>
            hasUnmergedCommits st \<or> (\<exists>n. behind (diffCommitCount st) = Some n \<and> 0 < n))
       \<and> (hasUnsavedChanges st \<longleftrightarrow> isDirty st \<or> hasUnmergedCommits st)"
  using assms
  by (elim getGitStatusInfo_Inr)
    (auto simp add: Boolean_num_def Boolean_opt_def or_num_def split: option.splits)

theorem flag_derivations_witness:
  "\<exists>st. getGitStatusInfo (sample_env (Some []) None None []) ''/w/app'' = Inr st
      \<and> modifiedCount st = \<lparr>files = 0, insertions = 0, deletions = 0\<rparr>
      \<and> diffCommitCount st = \<lparr>ahead = None, behind = None\<rparr>
      \<and> \<not> isDirty st \<and> \<not> hasUnmergedCommits st \<and> \<not> hasUnsyncedCommits st
      \<and> \<not> hasUnsavedChanges st"
proof -
  let ?e = "sample_env (Some []) None None []"
  have r: "getGitStatusInfo ?e ''/w/app'' =
      Inr \<lparr>name = ''app'', path = ''/w/app'', status = [], branch = ''Detached Head'',
           diffCommitCount = \<lparr>ahead = None, behind = None\<rparr>,
           modifiedCount = \<lparr>files = 0, insertions = 0, deletions = 0\<rparr>,
           isDirty = False, hasUnsavedChanges = False, tooManyChanges = True,
           hasUnmergedCommits = False, hasUnsyncedCommits = False\<rparr>"
    by code_simp
  from flag_derivations [OF r] r show ?thesis by simp
qed

section \<open>The repository detector\<close>

lemma isGitDirectory_fulfilled:
  "isGitDirectory e p = Inr (isGitDirectory e p = Inr True)"
  by (simp add: isGitDirectory_def split: sum.split)

lemma filterAsync_isGitDirectory:
  "filterAsync dirs (isGitDirectory e) = Inr (filter (\<lambda>d. isGitDirectory e d = Inr True) dirs)"
proof (induction dirs)
  case Nil
  then show ?case by simp
next
  case (Cons d dirs)
  have "isGitDirectory e d = Inr (isGitDirectory e d = Inr True)"
    by (rule isGitDirectory_fulfilled)
  then show ?case
    using Cons by (cases "isGitDirectory e d = Inr True") simp_all
qed

text \<open>
  Claim C7. On a root that is itself a working tree, \<open>getGitDirectories\<close> returns
  the one-element list of the root, whatever the listing of its subdirectories
  is or does (it is not consulted). On a root that is not a working tree, it
  returns the listed subdirectories for which \<open>isGitDirectory\<close> is true, in the
  order of the listing.
\<close>

theorem getGitDirectories_self_or_children:
  "(isGitDirectory e root = Inr True \<longrightarrow>
      (\<forall>g. getGitDirectories (e\<lparr>getDirectories := g\<rparr>) root = Inr [root]))
   \<and> (\<forall>dirs. isGitDirectory e root = Inr False \<and> getDirectories e root = Inr dirs \<longrightarrow>
         getGitDirectories e root = Inr (filter (\<lambda>d. isGitDirectory e d = Inr True) dirs))"
proof -
  have same: "isGitDirectory (e\<lparr>getDirectories := g\<rparr>) = isGitDirectory e" for g
    by (rule ext) (simp add: isGitDirectory_def split: sum.split)
  have self: "getGitDirectories (e\<lparr>getDirectories := g\<rparr>) root = Inr [root]"
    if "isGitDirectory e root = Inr True" for g
    using that by (simp add: getGitDirectories_def same)
  have children:
    "getGitDirectories e root = Inr (filter (\<lambda>d. isGitDirectory e d = Inr True) dirs)"
    if "isGitDirectory e root = Inr False \<and> getDirectories e root = Inr dirs" for dirs
    using that by (simp add: getGitDirectories_def filterAsync_isGitDirectory)
  from self children show ?thesis by blast
qed

theorem getGitDirectories_self_or_children_witness:
  "getGitDirectories (sample_env None None None []) ''/w/app'' = Inr [''/w/app'']
   \<and> getDirectories (sample_env None None None []) ''/w'' = Inr [''/w/app'', ''/w/notes'', ''/w/lib'']
   \<and> getGitDirectories (sample_env None None None []) ''/w'' = Inr [''/w/app'', ''/w/lib'']"
proof -
  let ?e = "sample_env None None None []"
  have app: "isGitDirectory ?e ''/w/app'' = Inr True"
    by code_simp
  have lib: "isGitDirectory ?e ''/w/lib'' = Inr True"
    by code_simp
  have docs: "isGitDirectory ?e ''/w/notes'' = Inr False"
    by code_simp
  have root: "isGitDirectory ?e ''/w'' = Inr False"
    by code_simp
  have dirs: "getDirectories ?e ''/w'' = Inr [''/w/app'', ''/w/notes'', ''/w/lib'']"
    by (simp add: sample_env_def)
  have upd: "?e\<lparr>getDirectories := getDirectories ?e\<rparr> = ?e"
    by simp
  from getGitDirectories_self_or_children [of ?e "''/w/app''"] app
  have "getGitDirectories (?e\<lparr>getDirectories := getDirectories ?e\<rparr>) ''/w/app'' = Inr [''/w/app'']"
    by blast
  with upd have one: "getGitDirectories ?e ''/w/app'' = Inr [''/w/app'']"
    by simp
  from getGitDirectories_self_or_children [of ?e "''/w''"] root dirs
  have "getGitDirectories ?e ''/w''
      = Inr (filter (\<lambda>d. isGitDirectory ?e d = Inr True) [''/w/app'', ''/w/notes'', ''/w/lib''])"
    by blast
  with app lib docs have two: "getGitDirectories ?e ''/w'' = Inr [''/w/app'', ''/w/lib'']"
    by simp
  from one dirs two show ?thesis by blast
qed

section \<open>The ahead/behind counts\<close>

lemma takeWhile_none:
  "\<forall>c\<in>set xs. \<not> P c \<Longrightarrow> takeWhile P xs = []"
  by (cases xs) simp_all

lemma match_ahead_behind_no_digits:
  assumes "\<forall>c\<in>set resp. \<not> is_digit c"
  shows "match_ahead_behind resp = ([], [])"
proof -
  have a: "takeWhile is_digit resp = []"
    using assms by (rule takeWhile_none)
  have "set (dropWhile is_space (dropWhile is_digit resp)) \<subseteq> set resp"
    by (meson set_dropWhileD subsetI)
  with assms have "\<forall>c\<in>set (dropWhile is_space (dropWhile is_digit resp)). \<not> is_digit c"
    by blast
  then have b: "takeWhile is_digit (dropWhile is_space (dropWhile is_digit resp)) = []"
    by (rule takeWhile_none)
  from a b show ?thesis
    by (simp add: match_ahead_behind_def Let_def)
qed

text \<open>
  Claim C8. When the ahead/behind query succeeds with a response that holds no
  digit, \<open>getAheadBehindCount\<close> returns \<open>ahead\<close> 0 and \<open>behind\<close> 0, both present,
  which is what it returns for the response \<^verbatim>\<open>0<TAB>0<LF>\<close> of a repository in
  sync; it does not return the absent marker.
\<close>

theorem no_digits_reads_as_in_sync:
  assumes "cmd e (''git -C '' @ p @ '' rev-list --count --left-right HEAD'' @ upstream_suffix)
             = Inr resp"
    and "\<forall>c\<in>set resp. \<not> is_digit c"
    and "cmd e' (''git -C '' @ p @ '' rev-list --count --left-right HEAD'' @ upstream_suffix)
             = Inr (''0'' @ [TAB] @ ''0'' @ [LF])"
  shows "getAheadBehindCount e p None = Inr \<lparr>ahead = Some 0, behind = Some 0\<rparr>
       \<and> getAheadBehindCount e p None = getAheadBehindCount e' p None
       \<and> getAheadBehindCount e p None \<noteq> Inr \<lparr>ahead = None, behind = None\<rparr>"
proof -
  have "match_ahead_behind resp = ([], [])"
    using assms(2) by (rule match_ahead_behind_no_digits)
  with assms(1) have one: "getAheadBehindCount e p None = Inr \<lparr>ahead = Some 0, behind = Some 0\<rparr>"
    by (simp add: getAheadBehindCount_def Number_def)
  have "match_ahead_behind (''0'' @ [TAB] @ ''0'' @ [LF]) = (''0'', ''0'')"
    by (simp add: match_ahead_behind_def TAB_def LF_def is_space_def is_digit_def)
  with assms(3) have two: "getAheadBehindCount e' p None = Inr \<lparr>ahead = Some 0, behind = Some 0\<rparr>"
    by (simp add: getAheadBehindCount_def Number_def)
  from one two show ?thesis by simp
qed

theorem no_digits_reads_as_in_sync_witness:
  "getAheadBehindCount (sample_env None None (Some ''usage: git rev-list'') []) ''/w/app'' None
     = Inr \<lparr>ahead = Some 0, behind = Some 0\<rparr>
   \<and> filter is_digit ''usage: git rev-list'' = []"
proof -
  let ?e = "sample_env None None (Some ''usage: git rev-list'') []"
  let ?e' = "sample_env None None (Some (''0'' @ [TAB] @ ''0'' @ [LF])) []"
  have c: "cmd (sample_env br st ab l)
      (''git -C '' @ ''/w/app'' @ '' rev-list --count --left-right HEAD'' @ upstream_suffix)
      = outcome ab" for br st ab l
    by (simp add: sample_env_def upstream_suffix_def)
  have d: "\<forall>c\<in>set ''usage: git rev-list''. \<not> is_digit c"
    by (simp add: is_digit_def)
  have d': "filter is_digit ''usage: git rev-list'' = []"
    by (simp add: is_digit_def)
  from no_digits_reads_as_in_sync [of ?e "''/w/app''" "''usage: git rev-list''" ?e'] d
  have "getAheadBehindCount ?e ''/w/app'' None = Inr \<lparr>ahead = Some 0, behind = Some 0\<rparr>"
    by (simp only: c outcome_def option.case)
  with d' show ?thesis by blast
qed

section \<open>The short status and the branch\<close>

text \<open>
  Claim C9 (as amended). When the short-status query succeeds, \<open>getGitShortStatus\<close>
  returns the response trimmed by \<open>trimNewLines\<close> and leaves \<open>tooManyChanges\<close>
  unset (the object has no such property; the aggregator reads it as not set).
  When the query fails, it returns the empty text with \<open>tooManyChanges\<close> true.
  In both cases it is fulfilled: the failure does not reach the caller.
\<close>

theorem getGitShortStatus_outcomes:
  "(\<forall>resp. cmd e (''git -C '' @ p @ '' status -s'') = Inr resp \<longrightarrow>
       getGitShortStatus e p =
         Inr \<lparr>IShortStatusInfo.status = trimNewLines e resp,
              IShortStatusInfo.tooManyChanges = None\<rparr>
     \<and> (\<forall>b. or_flag None b = b))
   \<and> (\<forall>err. cmd e (''git -C '' @ p @ '' status -s'') = Inl err \<longrightarrow>
         getGitShortStatus e p =
           Inr \<lparr>IShortStatusInfo.status = [], IShortStatusInfo.tooManyChanges = Some True\<rparr>)
   \<and> (\<exists>s. getGitShortStatus e p = Inr s)"
  by (cases "cmd e (''git -C '' @ p @ '' status -s'')")
    (simp_all add: getGitShortStatus_def or_flag_def)

theorem getGitShortStatus_outcomes_witness:
  "getGitShortStatus (sample_env None (Some ([LF] @ '' M a.ts'' @ [LF])) None []) ''/w/app''
     = Inr \<lparr>IShortStatusInfo.status = '' M a.ts'', IShortStatusInfo.tooManyChanges = None\<rparr>
   \<and> getGitShortStatus (sample_env None None None []) ''/w/app''
     = Inr \<lparr>IShortStatusInfo.status = [], IShortStatusInfo.tooManyChanges = Some True\<rparr>"
proof -
  have c: "cmd (sample_env br st ab l) (''git -C '' @ ''/w/app'' @ '' status -s'') = outcome st"
    for br st ab l
    by (simp add: sample_env_def)
  have t: "trimNewLines (sample_env br st ab l) ([LF] @ '' M a.ts'' @ [LF]) = '' M a.ts''"
    for br st ab l
    by (simp add: sample_env_def strip_def LF_def)
  show ?thesis
    using getGitShortStatus_outcomes
        [of "sample_env None (Some ([LF] @ '' M a.ts'' @ [LF])) None []" "''/w/app''"]
      getGitShortStatus_outcomes [of "sample_env None None None []" "''/w/app''"]
    by (simp only: c outcome_def option.case t)
qed

text \<open>
  The claim C9 as stated fails: on a successful query the returned object does
  not carry \<open>tooManyChanges = false\<close>; the property is absent.
\<close>

theorem getGitShortStatus_counterexample:
  "cmd (sample_env None (Some ('' M a.ts'' @ [LF])) None []) ''git -C /w/app status -s''
     = Inr ('' M a.ts'' @ [LF])
   \<and> getGitShortStatus (sample_env None (Some ('' M a.ts'' @ [LF])) None []) ''/w/app''
     = Inr \<lparr>IShortStatusInfo.status = '' M a.ts'', IShortStatusInfo.tooManyChanges = None\<rparr>
   \<and> getGitShortStatus (sample_env None (Some ('' M a.ts'' @ [LF])) None []) ''/w/app''
     \<noteq> Inr \<lparr>IShortStatusInfo.status = '' M a.ts'',
             IShortStatusInfo.tooManyChanges = Some False\<rparr>"
  by (simp add: getGitShortStatus_def sample_env_def outcome_def strip_def LF_def)

text \<open>
  Claim C10. For every response of the branch query, \<open>getCurrentBranch\<close> returns
  the response trimmed by \<open>trimWhitespace\<close>, and when the trimmed response is
  empty it returns the label \<^verbatim>\<open>Detached Head\<close> instead; what it returns is never
  the empty text.
\<close>

theorem getCurrentBranch_trimmed_or_sentinel:
  assumes "cmd e (''git -C '' @ p @ '' branch --show-current'') = Inr resp"
  shows "(trimWhitespace e resp \<noteq> [] \<longrightarrow> getCurrentBranch e p = Inr (trimWhitespace e resp))
       \<and> (trimWhitespace e resp = [] \<longrightarrow> getCurrentBranch e p = Inr ''Detached Head'')
       \<and> getCurrentBranch e p \<noteq> Inr []"
  using assms by (simp add: getCurrentBranch_def)

theorem getCurrentBranch_trimmed_or_sentinel_witness:
  "getCurrentBranch (sample_env (Some (''main'' @ [LF])) None None []) ''/w/app'' = Inr ''main''
   \<and> getCurrentBranch (sample_env (Some [LF]) None None []) ''/w/app'' = Inr ''Detached Head''"
proof -
  have c: "cmd (sample_env br st ab l) (''git -C '' @ ''/w/app'' @ '' branch --show-current'')
      = Inr (the br)" if "br \<noteq> None" for br st ab l
    using that by (auto simp add: sample_env_def outcome_def)
  have t1: "trimWhitespace (sample_env br st ab l) (''main'' @ [LF]) = ''main''" for br st ab l
    by (simp add: sample_env_def strip_def LF_def is_space_def)
  have t2: "trimWhitespace (sample_env br st ab l) [LF] = []" for br st ab l
    by (simp add: sample_env_def strip_def LF_def is_space_def)
  from getCurrentBranch_trimmed_or_sentinel
      [OF c, of "Some (''main'' @ [LF])" None None "[]"] t1
  have one: "getCurrentBranch (sample_env (Some (''main'' @ [LF])) None None []) ''/w/app''
      = Inr ''main''"
    by simp
  from getCurrentBranch_trimmed_or_sentinel [OF c, of "Some [LF]" None None "[]"] t2
  have two: "getCurrentBranch (sample_env (Some [LF]) None None []) ''/w/app''
      = Inr ''Detached Head''"
    by simp
  from one two show ?thesis by blast
qed

end
